theory Spec2Isabelle
  imports Complex_Main "HOL-Library.Word" "HOL-Library.Multiset" "HOL-Library.Product_Lexorder"
begin

section \<open>Time\<close>

text \<open>
  \<^verbatim>\<open>using ms = time_point<milliseconds>\<close>: a time point is a signed count of
  milliseconds since the epoch, and \<^verbatim>\<open>ms{}\<close> is the count 0. Durations
  (\<^verbatim>\<open>milliseconds\<close>) are signed counts as well. Both are modelled as \<open>int\<close>;
  the code only compares, adds and subtracts them, and signed overflow of a count is
  undefined in C++.
\<close>

type_synonym ms = int
type_synonym milliseconds = int

section \<open>Job (includes/job.h)\<close>

datatype JobState =
  PEND | RUN | DONE | EXIT | PSUSP | USUSP | SSUSP | POST_DONE | POST_ERR | UNKWN | WAIT | ZOMBI

text \<open>
  The fields of \<^verbatim>\<open>class Job\<close>. \<open>job_id\<close> and \<open>job_priority\<close> are the fields
  \<^verbatim>\<open>id\<close> and \<^verbatim>\<open>priority\<close>;
  \<open>queue_managing_this_job\<close> is a pointer to a queue, kept as the index of that
  queue; \<open>run_host_name\<close> is a pointer that is unset until \<^verbatim>\<open>set_run_host_name\<close>.
\<close>

record Job =
  job_id :: int
  slot_required :: int
  mem_required :: int
  submit_time :: ms
  cpu_time :: milliseconds
  non_cpu_time :: milliseconds
  queue_managing_this_job :: nat
  run_time :: milliseconds
  start_time :: ms
  finish_time :: ms
  total_pending_duration :: milliseconds
  job_priority :: int
  state :: JobState
  run_host_name :: "string option"
  pend_start_time :: ms

text \<open>
  \<^verbatim>\<open>void set_pending(ms time) noexcept
  { state = JobState::PEND; if (pend_start_time_ == ms{}) pend_start_time_ = time; }\<close>
\<close>

definition set_pending :: "ms \<Rightarrow> Job \<Rightarrow> Job" where
  "set_pending time j =
     (let j1 = j\<lparr>state := PEND\<rparr>
      in if pend_start_time j1 = 0 then j1\<lparr>pend_start_time := time\<rparr> else j1)"

definition update_total_pending_duration :: "ms \<Rightarrow> Job \<Rightarrow> Job" where
  "update_total_pending_duration current_time j =
     j\<lparr>total_pending_duration := current_time - pend_start_time j\<rparr>"

definition set_run_host_name :: "string \<Rightarrow> Job \<Rightarrow> Job" where
  "set_run_host_name name j = j\<lparr>run_host_name := Some name\<rparr>"

text \<open>
  Modelled from the spec: \<^verbatim>\<open>struct ScenarioEntry\<close> is only forward-declared in the
  sources; its fields are those of section 4.5 of the specification.
\<close>

record ScenarioEntry =
  entry_submit_time :: ms
  entry_slot_required :: int
  entry_mem_required :: int
  entry_cpu_time :: milliseconds
  entry_non_cpu_time :: milliseconds
  entry_queue_name :: string

text \<open>
  \<^verbatim>\<open>int id{ id_gen_++ }\<close> with \<^verbatim>\<open>static int id_gen_\<close>: the value of a 32-bit
  signed counter shared by the whole process is taken as the id and the counter is
  incremented. C++ leaves the increment of \<^verbatim>\<open>INT_MAX\<close> undefined; the program as
  built wraps around to \<^verbatim>\<open>INT_MIN\<close> (two's complement), and so does the model. The
  result is the id and the counter after the increment.
\<close>

definition INT_MAX :: int where
  "INT_MAX = 2147483647"

definition INT_MIN :: int where
  "INT_MIN = - 2147483648"

definition Job_id_gen_post_increment :: "int \<Rightarrow> int \<times> int" where
  "Job_id_gen_post_increment id_gen =
     (id_gen, if id_gen = INT_MAX then INT_MIN else id_gen + 1)"

text \<open>
  \<^verbatim>\<open>Job(const ScenarioEntry& entry, Queue& queue, const ms submit_time)\<close>. The default
  member initialisers are those of the header. Modelled from the spec: the constructor's
  body is not among the sources; it binds the submit time and the queue and takes the
  requirements from the entry (sections 3 and 4.4 of the specification). The result is the
  new job and the counter after the construction.
\<close>

definition Job_ctor :: "int \<Rightarrow> ScenarioEntry \<Rightarrow> nat \<Rightarrow> ms \<Rightarrow> Job \<times> int" where
  "Job_ctor id_gen entry queue submit =
     (case Job_id_gen_post_increment id_gen of
        (new_id, id_gen') \<Rightarrow>
          (\<lparr>job_id = new_id,
            slot_required = entry_slot_required entry,
            mem_required = entry_mem_required entry,
            submit_time = submit,
            cpu_time = entry_cpu_time entry,
            non_cpu_time = entry_non_cpu_time entry,
            queue_managing_this_job = queue,
            run_time = 0,
            start_time = 0,
            finish_time = 0,
            total_pending_duration = 0,
            job_priority = 0,
            state = WAIT,
            run_host_name = None,
            pend_start_time = 0\<rparr>, id_gen'))"


section \<open>EventItem (include/cluster\_simulation.h)\<close>

type_synonym size_t = "64 word"
type_synonym uint8_t = "8 word"

datatype Type = SCENARIO | JOB_FINISHED | JOB_RESERVED | DISPATCH | LOG

text \<open>
  \<^verbatim>\<open>using Action = std::function<void()>\<close>. The only action the header itself
  stores in an event is a reference to the engine's dispatcher; every other closure is
  identified by a number.
\<close>

datatype Action = Dispatcher_ref | Closure nat

text \<open>
  \<^verbatim>\<open>struct EventItem\<close>: \<open>ev_id\<close>, \<open>ev_time\<close>, \<open>ev_action\<close>, \<open>ev_priority\<close> and
  \<open>ev_type\<close> are its members \<^verbatim>\<open>id\<close>, \<^verbatim>\<open>time\<close>, \<^verbatim>\<open>action\<close>,
  \<^verbatim>\<open>priority\<close> and \<^verbatim>\<open>type\<close>. \<^verbatim>\<open>std::size_t\<close> is taken to be 64 bits wide.
\<close>

record EventItem =
  ev_id :: size_t
  ev_time :: ms
  ev_action :: Action
  ev_priority :: uint8_t
  ev_type :: Type

text \<open>
  \<^verbatim>\<open>bool operator<(const EventItem& a) const
  { return a.time == time ? a.priority < priority : a.time < time; }\<close>
  \<open>EventItem_less this a\<close> is \<^verbatim>\<open>this < a\<close>.
\<close>

definition EventItem_less :: "EventItem \<Rightarrow> EventItem \<Rightarrow> bool" where
  "EventItem_less this a =
     (if ev_time a = ev_time this then ev_priority a < ev_priority this
      else ev_time a < ev_time this)"

text \<open>
  Modelled from the spec: \<^verbatim>\<open>Utils::EventQueue\<close> (utils.h) is not among the sources.
  Section 4.1 of the specification makes it a priority collection whose ordering matches
  EventItem's comparator. As in \<^verbatim>\<open>std::priority_queue\<close> with \<^verbatim>\<open>std::less\<close>, the
  element on top is one that is not less than any other element under \<^verbatim>\<open>operator<\<close>;
  this is the reading under which the earliest event is popped first, since the comparator
  makes a later event less than an earlier one. The contents of the collection are a list,
  in insertion order.
\<close>

definition is_top :: "EventItem list \<Rightarrow> EventItem \<Rightarrow> bool" where
  "is_top es e = (e \<in> set es \<and> list_all (\<lambda>x. \<not> EventItem_less e x) es)"

text \<open>
  \<open>is_pop_order es out\<close>: the sequence \<open>out\<close> is an order in which the
  collection \<open>es\<close> can be emptied by popping the top element each time. Which of
  several elements that the comparator does not distinguish comes first is left open.
\<close>

fun is_pop_order :: "EventItem list \<Rightarrow> EventItem list \<Rightarrow> bool" where
  "is_pop_order es [] = (es = [])"
| "is_pop_order es (e # out) = (is_top es e \<and> is_pop_order (remove1 e es) out)"

text \<open>
  One such order, computed: \<open>top_event\<close> scans the contents and keeps the first element
  that nothing after it exceeds; \<open>drain\<close> pops until the collection is empty.
\<close>

fun top_from :: "EventItem \<Rightarrow> EventItem list \<Rightarrow> EventItem" where
  "top_from best [] = best"
| "top_from best (x # xs) = (if EventItem_less best x then top_from x xs else top_from best xs)"

definition top_event :: "EventItem list \<Rightarrow> EventItem option" where
  "top_event es = (case es of [] \<Rightarrow> None | x # xs \<Rightarrow> Some (top_from x xs))"

function drain :: "EventItem list \<Rightarrow> EventItem list" where
  "drain es = (case top_event es of None \<Rightarrow> [] | Some e \<Rightarrow> e # drain (remove1 e es))"
  by pat_completeness auto

lemma top_from_mem: "top_from b xs \<in> set (b # xs)"
  by (induction xs arbitrary: b) auto

lemma top_event_mem: "top_event es = Some e \<Longrightarrow> e \<in> set es"
  using top_from_mem by (cases es) (auto simp: top_event_def)

termination drain
proof (relation "measure length")
  show "wf (measure length)" by simp
next
  fix es e assume "top_event es = Some e"
  then have "e \<in> set es" by (rule top_event_mem)
  then have "length (remove1 e es) < length es"
    using length_pos_if_in_set [of e es] by (simp add: length_remove1)
  then show "(remove1 e es, es) \<in> measure length" by simp
qed

text \<open>
  \<open>popped_before x y\<close>: what the comparator guarantees about an event \<open>x\<close> that is
  popped before an event \<open>y\<close>: \<open>x\<close> is not later, and at equal times the priority
  value of \<open>x\<close> is not the greater one.
\<close>

definition popped_before :: "EventItem \<Rightarrow> EventItem \<Rightarrow> bool" where
  "popped_before x y =
     (ev_time x < ev_time y \<or> (ev_time x = ev_time y \<and> ev_priority x \<le> ev_priority y))"

section \<open>The simulation engine (include/cluster\_simulation.h)\<close>

text \<open>
  \<^verbatim>\<open>std::size_t id = id_gen_++\<close> with \<^verbatim>\<open>inline static std::size_t id_gen_ = 0\<close>:
  every construction of an EventItem takes the value of a 64-bit unsigned counter shared by
  the whole process as its id and increments the counter, which wraps around.
  \<^verbatim>\<open>EventItem(ms time, const Action& action, uint8_t priority, Type type)\<close> returns the
  event and the counter after the construction.
\<close>

definition EventItem_ctor :: "size_t \<Rightarrow> ms \<Rightarrow> Action \<Rightarrow> uint8_t \<Rightarrow> Type \<Rightarrow> EventItem \<times> size_t" where
  "EventItem_ctor id_gen time action prio type =
     (\<lparr>ev_id = id_gen, ev_time = time, ev_action = action, ev_priority = prio, ev_type = type\<rparr>,
      id_gen + 1)"



text \<open>
  The members of \<^verbatim>\<open>class ClusterSimulation\<close> that the functions defined in the header
  read or write, together with the static counter of EventItem and the member
  \<^verbatim>\<open>latest_cluster_version_\<close> of the dispatcher. \<open>cluster_version\<close> is
  \<^verbatim>\<open>cluster_.get_version()\<close> and \<open>scenario_count\<close> is \<^verbatim>\<open>scenario_.count()\<close>;
  the queues are of a type \<open>'q\<close> that the header does not define.
\<close>

record 'q ClusterSimulation =
  EventItem_id_gen :: size_t
  current_time :: ms
  events :: "EventItem list"
  next_dispatch_reserved :: bool
  num_dispatched_slots :: size_t
  cluster_version :: size_t
  scenario_count :: size_t
  all_queues :: "'q list"
  num_pending_jobs :: size_t
  latest_cluster_version :: size_t
  using_slot_record :: "ms \<rightharpoonup> size_t"
  pending_record :: "(ms \<times> size_t) list"

definition DISPATCH_FREQUENCY :: milliseconds where
  "DISPATCH_FREQUENCY = 1000"

text \<open>
  \<^verbatim>\<open>std::size_t after_delay(milliseconds delay, Action block, uint8_t priority, Type type)\<close>:
  constructs the event at \<^verbatim>\<open>current_time_ + delay\<close>, pushes it and returns its id.
\<close>

definition after_delay ::
  "milliseconds \<Rightarrow> Action \<Rightarrow> uint8_t \<Rightarrow> Type \<Rightarrow> 'q ClusterSimulation \<Rightarrow> size_t \<times> 'q ClusterSimulation" where
  "after_delay delay block prio type s =
     (let (event_item, id_gen') =
            EventItem_ctor (EventItem_id_gen s) (current_time s + delay) block prio type
      in (ev_id event_item,
          s\<lparr>EventItem_id_gen := id_gen', events := events s @ [event_item]\<rparr>))"



text \<open>
  \<^verbatim>\<open>log_using_slots\<close>, with \<^verbatim>\<open>SLOTS_FILE_OUTPUT = true\<close> as in the header.
\<close>

definition log_using_slots :: "'q ClusterSimulation \<Rightarrow> 'q ClusterSimulation" where
  "log_using_slots s =
     s\<lparr>using_slot_record := (using_slot_record s)(current_time s \<mapsto> num_dispatched_slots s),
       pending_record := pending_record s @ [(current_time s, num_pending_jobs s)]\<rparr>"

text \<open>
  \<^verbatim>\<open>for (auto& q : simulation_->all_queues_) flag |= q.dispatch();\<close>
  \<^verbatim>\<open>Queue::dispatch\<close> is not among the sources: it is the parameter \<open>dispatch\<close>, which
  takes the index of the queue and the simulation and returns its result and the simulation
  as it leaves it.
\<close>

fun dispatch_all ::
  "(nat \<Rightarrow> 'q ClusterSimulation \<Rightarrow> bool \<times> 'q ClusterSimulation) \<Rightarrow> nat list \<Rightarrow> bool \<Rightarrow>
   'q ClusterSimulation \<Rightarrow> bool \<times> 'q ClusterSimulation" where
  "dispatch_all dispatch [] flag s = (flag, s)"
| "dispatch_all dispatch (q # qs) flag s =
     (let (r, s') = dispatch q s in dispatch_all dispatch qs (flag \<or> r) s')"

text \<open>
  \<^verbatim>\<open>void Dispatcher::operator()()\<close>. \<^verbatim>\<open>Queue::get_num_pending_jobs\<close> is the
  parameter \<open>get_num_pending_jobs\<close>.
\<close>

definition Dispatcher ::
  "(nat \<Rightarrow> 'q ClusterSimulation \<Rightarrow> bool \<times> 'q ClusterSimulation) \<Rightarrow> ('q \<Rightarrow> size_t) \<Rightarrow>
   'q ClusterSimulation \<Rightarrow> 'q ClusterSimulation" where
  "Dispatcher dispatch get_num_pending_jobs s =
     (let version = cluster_version s in
      if version = latest_cluster_version s then
        if scenario_count s = 0 \<and> num_pending_jobs s = 0
        then s\<lparr>next_dispatch_reserved := False\<rparr>
        else snd (after_delay DISPATCH_FREQUENCY Dispatcher_ref 1 DISPATCH s)
      else
        let s1 = s\<lparr>latest_cluster_version := version\<rparr>;
            (flag, s2) = dispatch_all dispatch [0..<length (all_queues s1)] False s1;
            s3 = (if flag then
                    let s4 = snd (after_delay DISPATCH_FREQUENCY Dispatcher_ref 1 DISPATCH s2);
                        num = fold (\<lambda>q num. num + get_num_pending_jobs q) (all_queues s4) 0
                    in s4\<lparr>num_pending_jobs := num\<rparr>
                  else s2\<lparr>next_dispatch_reserved := False, latest_cluster_version := 0\<rparr>)
        in log_using_slots s3)"







section \<open>The genetic algorithm driver (static-genetic-algorithm/main.cpp)\<close>

subsection \<open>Chromosomes\<close>

text \<open>
  Modelled from the spec: chromosome.h is not among the sources. Section 3 of the
  specification makes a chromosome a vector of genes with an age, a type and an optional
  cached fitness. Genes and fitness values are \<^verbatim>\<open>double\<close>s, taken as real numbers
  (values that are not numbers are left out).
\<close>

datatype ChromosomeType = INITIAL | CROSSOVER | MUTATION

record Chromosome =
  genes :: "real list"
  age :: nat
  chromosome_type :: ChromosomeType
  cached_fitness :: "real option"

text \<open>
  Modelled from the spec: \<^verbatim>\<open>Chromosome::fitness()\<close> (section 4.7) returns the cached
  value when there is one and otherwise the value obtained by running the simulator on the
  decoded genes, which is the parameter \<open>evaluate\<close>.
\<close>

definition fitness :: "(real list \<Rightarrow> real) \<Rightarrow> Chromosome \<Rightarrow> real" where
  "fitness evaluate c = (case cached_fitness c of Some f \<Rightarrow> f | None \<Rightarrow> evaluate (genes c))"

text \<open>Modelled from the spec: \<^verbatim>\<open>increase_age()\<close> is \<^verbatim>\<open>age += 1\<close> (section 4.7).\<close>

definition increase_age :: "Chromosome \<Rightarrow> Chromosome" where
  "increase_age c = c\<lparr>age := age c + 1\<rparr>"

subsection \<open>The operations of genetic\_algorithm.h\<close>

text \<open>
  Modelled from the spec: genetic\_algorithm.h is not among the sources.
  \<^verbatim>\<open>calculate_fitness_parallel\<close> evaluates the fitness of every chromosome of a pool
  (section 4.8), which leaves the value cached.
\<close>

definition calculate_fitness_parallel ::
  "(real list \<Rightarrow> real) \<Rightarrow> Chromosome list \<Rightarrow> Chromosome list" where
  "calculate_fitness_parallel evaluate cs =
     map (\<lambda>c. c\<lparr>cached_fitness := Some (fitness evaluate c)\<rparr>) cs"

text \<open>
  Modelled from the spec: \<^verbatim>\<open>select_survivors(population, offspring, mutants)\<close> merges
  the three pools and picks the top \<open>n\<close> by fitness into the population, ties broken by
  lower age first, then by insertion order (section 4.8): a stable sort of the merged pools
  by descending fitness and then ascending age, of which the first \<open>n\<close> are kept.
\<close>

definition select_survivors ::
  "(real list \<Rightarrow> real) \<Rightarrow> nat \<Rightarrow> Chromosome list \<Rightarrow> Chromosome list \<Rightarrow> Chromosome list \<Rightarrow>
   Chromosome list" where
  "select_survivors evaluate n population offspring mutants =
     take n (sort_key (\<lambda>c. (- fitness evaluate c, age c)) (population @ offspring @ mutants))"

subsection \<open>Library functions\<close>

text \<open>
  \<^verbatim>\<open>std::max_element(first, last, comp)\<close>: the position of the first greatest element,
  or none (the end iterator) for an empty range. The loop keeps the position and the value
  of the largest element so far and replaces them when \<^verbatim>\<open>comp(*largest, *first)\<close>.
\<close>

fun max_element_loop :: "('a \<Rightarrow> 'a \<Rightarrow> bool) \<Rightarrow> nat \<times> 'a \<Rightarrow> nat \<Rightarrow> 'a list \<Rightarrow> nat \<times> 'a" where
  "max_element_loop cmp largest i [] = largest"
| "max_element_loop cmp largest i (x # xs) =
     max_element_loop cmp (if cmp (snd largest) x then (i, x) else largest) (Suc i) xs"

definition max_element :: "('a \<Rightarrow> 'a \<Rightarrow> bool) \<Rightarrow> 'a list \<Rightarrow> nat option" where
  "max_element cmp xs =
     (case xs of [] \<Rightarrow> None | x # rest \<Rightarrow> Some (fst (max_element_loop cmp (0, x) 1 rest)))"

text \<open>The remainder of C++ on \<^verbatim>\<open>int\<close>, which truncates towards zero.\<close>

definition c_rem :: "int \<Rightarrow> int \<Rightarrow> int" where
  "c_rem a b = sgn a * (\<bar>a\<bar> mod \<bar>b\<bar>)"

subsection \<open>What the driver writes\<close>

text \<open>
  What the driver prints on the standard output, and the files it writes, in order. The
  formatting of numbers and the elapsed times appended to the summary are not modelled.
\<close>

datatype console_output =
    Text string
  | Help
  | Epoch int
  | Best_fitness real nat ChromosomeType
  | Population_composition "Chromosome list"

datatype file_output =
    Save_population string "Chromosome list"
  | Save_chromosome string Chromosome
  | Save_epochs_record string "(int \<times> real) list"
  | Save_summary_text string
  | Append_elapsed_times string

datatype undefined_behaviour =
    Dereferenced_end_iterator
  | Remainder_by_zero
  | Uninitialised_pointer

subsection \<open>Constants and operations that main takes from elsewhere\<close>

text \<open>
  The compile-time constants of genetic\_algorithm.h, and the operations of which neither
  the sources nor the specification fix the result: they are parameters. \<open>'w\<close> is the
  state of the random number generators. \<open>generate_offspring_parallel\<close> and
  \<open>get_mutants\<close> read the pool they are given and return the offspring and the mutants
  (section 4.8 of the specification).
\<close>

record 'w GA =
  NUM_POPULATION_TO_KEEP :: nat
  NUM_OFFSPRING :: nat
  NUM_ITERATIONS :: int
  SAVE_INTERVAL :: int
  CONSOLE_OUTPUT :: bool
  evaluate :: "real list \<Rightarrow> real"
  default_chromosome :: Chromosome
  load_population :: "string \<Rightarrow> Chromosome list"
  generate_initial_population ::
    "'w \<Rightarrow> Chromosome list \<Rightarrow> Chromosome list \<Rightarrow> Chromosome list \<times> Chromosome list \<times> 'w"
  generate_offspring_parallel :: "'w \<Rightarrow> Chromosome list \<Rightarrow> Chromosome list \<Rightarrow> Chromosome list \<times> 'w"
  get_mutants :: "Chromosome list \<Rightarrow> Chromosome list \<Rightarrow> 'w \<Rightarrow> Chromosome list \<times> 'w"

subsection \<open>main\<close>

text \<open>
  The local variables of \<^verbatim>\<open>main\<close> that the loop reads or writes, and the output so
  far. \<^verbatim>\<open>Chromosome* current_best\<close> points into the population: it is the index of a
  member, or \<open>None\<close> as long as nothing has been assigned to it.
\<close>

record 'w GA_state =
  population :: "Chromosome list"
  offspring :: "Chromosome list"
  mutants :: "Chromosome list"
  rnd :: 'w
  current_best :: "nat option"
  output_buffer :: "(int \<times> real) list"
  console :: "console_output list"
  files :: "file_output list"

text \<open>
  The loop body from \<^verbatim>\<open>generate_offspring_parallel(population, offspring)\<close> to
  \<^verbatim>\<open>calculate_fitness_parallel(mutants)\<close>.
\<close>

definition breed :: "'w GA \<Rightarrow> 'w GA_state \<Rightarrow> 'w GA_state" where
  "breed ga st =
     (let (off, w1) = generate_offspring_parallel ga (rnd st) (population st) (offspring st);
          off = calculate_fitness_parallel (evaluate ga) off;
          (mut1, w2) = get_mutants ga (population st) (mutants st) w1;
          (mut2, w3) = get_mutants ga off mut1 w2;
          mut = calculate_fitness_parallel (evaluate ga) mut2
      in st\<lparr>offspring := off, mutants := mut, rnd := w3\<rparr>)"

text \<open>
  The whole loop body, for the iteration index \<open>iter\<close>. Dereferencing the result of
  \<^verbatim>\<open>std::max_element\<close> on an empty population and \<^verbatim>\<open>iter % SAVE_INTERVAL\<close> with
  \<^verbatim>\<open>SAVE_INTERVAL\<close> zero are undefined.
\<close>

definition iteration :: "'w GA \<Rightarrow> int \<Rightarrow> 'w GA_state \<Rightarrow> undefined_behaviour + 'w GA_state" where
  "iteration ga iter st =
     (let st1 = breed ga (st\<lparr>console := console st @ [Epoch (iter + 1)]\<rparr>);
          survivors = select_survivors (evaluate ga) (NUM_POPULATION_TO_KEEP ga)
                        (population st1) (offspring st1) (mutants st1);
          st2 = st1\<lparr>population := survivors, mutants := []\<rparr>
      in case max_element (\<lambda>a b. fitness (evaluate ga) a < fitness (evaluate ga) b)
                (population st2) of
           None \<Rightarrow> Inl Dereferenced_end_iterator
         | Some best \<Rightarrow>
             let st3 = st2\<lparr>current_best := Some best\<rparr>;
                 st4 = (if CONSOLE_OUTPUT ga
                        then st3\<lparr>console := console st3 @
                               [Best_fitness (fitness (evaluate ga) (population st3 ! best))
                                  (age (population st3 ! best))
                                  (chromosome_type (population st3 ! best)),
                                Population_composition (population st3)]\<rparr>
                        else st3);
                 st5 = st4\<lparr>output_buffer := output_buffer st4 @
                              [(iter, fitness (evaluate ga) (population st4 ! best))]\<rparr>;
                 st6 = st5\<lparr>population := map increase_age (population st5)\<rparr>
             in if SAVE_INTERVAL ga = 0 then Inl Remainder_by_zero
                else if c_rem iter (SAVE_INTERVAL ga) = 0
                then Inr (st6\<lparr>files := files st6 @
                                [Save_population ''last_population.bin'' (population st6)]\<rparr>)
                else Inr st6)"

text \<open>\<^verbatim>\<open>for (auto iter = 0; iter < NUM_ITERATIONS; ++iter)\<close>, from the index \<open>iter\<close> on.\<close>

function ga_loop :: "'w GA \<Rightarrow> int \<Rightarrow> 'w GA_state \<Rightarrow> undefined_behaviour + 'w GA_state" where
  "ga_loop ga iter st =
     (if iter < NUM_ITERATIONS ga
      then (case iteration ga iter st of
              Inl u \<Rightarrow> Inl u
            | Inr st' \<Rightarrow> ga_loop ga (iter + 1) st')
      else Inr st)"
  by pat_completeness auto
termination
  by (relation "measure (\<lambda>(ga, iter, st). nat (NUM_ITERATIONS ga - iter))") auto

declare ga_loop.simps [simp del]

text \<open>
  The state after the first \<open>k\<close> passes through the loop body, which have the iteration
  indices \<open>0\<close> to \<open>k - 1\<close>.
\<close>

fun after_generations :: "'w GA \<Rightarrow> nat \<Rightarrow> 'w GA_state \<Rightarrow> undefined_behaviour + 'w GA_state" where
  "after_generations ga 0 st = Inr st"
| "after_generations ga (Suc k) st =
     (case after_generations ga k st of
        Inl u \<Rightarrow> Inl u
      | Inr st' \<Rightarrow> iteration ga (int k) st')"

text \<open>
  The result of \<^verbatim>\<open>program.parse_args(argc, argv)\<close> (argparse.hpp): the value of
  \<^verbatim>\<open>--population\<close>, which defaults to the empty string, or the
  \<^verbatim>\<open>std::runtime_error\<close> that the parser throws when the arguments do not parse, with
  its message.
\<close>

datatype parse_args = Parsed string | Runtime_error string

text \<open>
  How the process ends: with an exit code (\<^verbatim>\<open>exit(0)\<close>, or 0 when \<^verbatim>\<open>main\<close>
  returns) after the output given, or in undefined behaviour.
\<close>

datatype outcome =
    Exited int "console_output list" "file_output list"
  | Undefined_behaviour undefined_behaviour

text \<open>
  \<^verbatim>\<open>main\<close> from the first \<^verbatim>\<open>select_survivors\<close> on: the state in which the loop
  starts, and the loop with the saves after it.
\<close>

definition before_loop :: "'w GA \<Rightarrow> Chromosome list \<Rightarrow> Chromosome list \<Rightarrow> 'w \<Rightarrow> 'w GA_state" where
  "before_loop ga pop off w =
     (let survivors = select_survivors (evaluate ga) (NUM_POPULATION_TO_KEEP ga) pop off []
      in \<lparr>population = survivors, offspring = off, mutants = [], rnd = w,
          current_best = None, output_buffer = [], console = [],
          files = [Save_population ''last_population.bin'' survivors]\<rparr>)"

definition evolve :: "'w GA \<Rightarrow> Chromosome list \<Rightarrow> Chromosome list \<Rightarrow> 'w \<Rightarrow> outcome" where
  "evolve ga pop off w =
     (case ga_loop ga 0 (before_loop ga pop off w) of
        Inl u \<Rightarrow> Undefined_behaviour u
      | Inr st' \<Rightarrow>
          (case current_best st' of
             None \<Rightarrow> Undefined_behaviour Uninitialised_pointer
           | Some best \<Rightarrow>
               Exited 0 (console st')
                 (files st' @
                  [Save_chromosome ''best_chromosome.bin'' (population st' ! best),
                   Save_population ''last_population.bin'' (population st'),
                   Save_epochs_record ''records.csv'' (output_buffer st'),
                   Save_summary_text ''summary.txt'',
                   Append_elapsed_times ''summary.txt''])))"

text \<open>
  \<^verbatim>\<open>int main(int argc, char* argv[])\<close>, given the result of parsing the arguments and
  the state of the random number generators. The population and the offspring start as
  arrays of default-constructed chromosomes.
\<close>

definition main :: "'w GA \<Rightarrow> parse_args \<Rightarrow> 'w \<Rightarrow> outcome" where
  "main ga args w =
     (case args of
        Runtime_error what \<Rightarrow> Exited 0 [Text what, Help] []
      | Parsed population_file_path \<Rightarrow>
          let population = replicate (NUM_POPULATION_TO_KEEP ga) (default_chromosome ga);
              offspring = replicate (NUM_OFFSPRING ga) (default_chromosome ga)
          in if population_file_path \<noteq> [] then
               let population_vector = load_population ga population_file_path
               in if NUM_POPULATION_TO_KEEP ga \<noteq> length population_vector
                  then Exited 0 [Text ''Incompatible population.''] []
                  else
                    let population = calculate_fitness_parallel (evaluate ga)
                                       (take (NUM_POPULATION_TO_KEEP ga) population_vector);
                        (off, w1) = generate_offspring_parallel ga w population offspring;
                        off = calculate_fitness_parallel (evaluate ga) off
                    in evolve ga population off w1
             else
               let (population, off, w1) = generate_initial_population ga w population offspring
               in evolve ga population off w1)"

subsection \<open>Notions the claims use\<close>

definition exit_code :: "outcome \<Rightarrow> int option" where
  "exit_code out = (case out of Exited code c f \<Rightarrow> Some code | Undefined_behaviour u \<Rightarrow> None)"

text \<open>The number of generations that have announced themselves on the standard output.\<close>

definition generations_run :: "outcome \<Rightarrow> nat" where
  "generations_run out =
     (case out of
        Exited code c f \<Rightarrow>
          length (filter (\<lambda>line. case line of Epoch n \<Rightarrow> True | _ \<Rightarrow> False) c)
      | Undefined_behaviour u \<Rightarrow> 0)"

definition max_fitness :: "(real list \<Rightarrow> real) \<Rightarrow> Chromosome list \<Rightarrow> real" where
  "max_fitness ev pop = Max (set (map (fitness ev) pop))"

text \<open>The population that survivor selection keeps in the generation that starts in \<open>st\<close>.\<close>

definition generation_survivors :: "'w GA \<Rightarrow> 'w GA_state \<Rightarrow> Chromosome list" where
  "generation_survivors ga st =
     select_survivors (evaluate ga) (NUM_POPULATION_TO_KEEP ga)
       (population st) (offspring (breed ga st)) (mutants (breed ga st))"

section \<open>Example inputs\<close>

text \<open>
  The entry of the first end-to-end scenario of the specification (section 8): submitted at
  time 0, one slot, 1 GB of memory in KB, 1000 ms of cpu time and no other time.
\<close>

definition scenario_1_entry :: ScenarioEntry where
  "scenario_1_entry =
     \<lparr>entry_submit_time = 0, entry_slot_required = 1, entry_mem_required = 1048576,
      entry_cpu_time = 1000, entry_non_cpu_time = 0, entry_queue_name = ''normal''\<rparr>"

text \<open>An engine with an empty event queue, no queue and nothing pending, at time 0.\<close>

definition idle_engine :: "unit ClusterSimulation" where
  "idle_engine =
     \<lparr>EventItem_id_gen = 0, current_time = 0, events = [], next_dispatch_reserved = True,
      num_dispatched_slots = 0, cluster_version = 0, scenario_count = 0, all_queues = [],
      num_pending_jobs = 0, latest_cluster_version = 0, using_slot_record = Map.empty,
      pending_record = []\<rparr>"

text \<open>
  A small configuration of the driver: four chromosomes of two genes are kept, there are
  two offspring, two iterations, and the population is saved every second iteration. The
  fitness of a chromosome is the sum of its genes; the offspring and the initial population
  are fixed, and a pool contributes one mutant, its first member with 3 added to each gene.
  The population file holds four chromosomes.
\<close>

definition tiny_GA :: "unit GA" where
  "tiny_GA =
     \<lparr>NUM_POPULATION_TO_KEEP = 4, NUM_OFFSPRING = 2, NUM_ITERATIONS = 2, SAVE_INTERVAL = 2,
      CONSOLE_OUTPUT = False,
      evaluate = sum_list,
      default_chromosome =
        \<lparr>genes = [0, 0], age = 0, chromosome_type = INITIAL, cached_fitness = None\<rparr>,
      load_population = (\<lambda>path.
        map (\<lambda>g. \<lparr>genes = [g, 0], age = 0, chromosome_type = INITIAL, cached_fitness = None\<rparr>)
          [10, 7, 5, 1]),
      generate_initial_population = (\<lambda>w pop off.
        (map (\<lambda>g. \<lparr>genes = [g, 0], age = 0, chromosome_type = INITIAL, cached_fitness = Some g\<rparr>)
           [10, 7, 5, 1],
         map (\<lambda>g. \<lparr>genes = [g, 0], age = 0, chromosome_type = CROSSOVER, cached_fitness = Some g\<rparr>)
           [12, 3],
         w)),
      generate_offspring_parallel = (\<lambda>w pop off.
        (map (\<lambda>g. \<lparr>genes = [g, 0], age = 0, chromosome_type = CROSSOVER, cached_fitness = None\<rparr>)
           [12, 3],
         w)),
      get_mutants = (\<lambda>src mut w.
        (mut @ map (\<lambda>c. c\<lparr>genes := map (\<lambda>g. g + 3) (genes c), age := 0,
                           chromosome_type := MUTATION, cached_fitness := None\<rparr>) (take 1 src),
         w))\<rparr>"

text \<open>
  The state in which the loop of \<^verbatim>\<open>main\<close> starts in this configuration when no
  population file is given.
\<close>

definition tiny_start :: "unit GA_state" where
  "tiny_start =
     (case generate_initial_population tiny_GA () [] [] of
        (pop, off, w) \<Rightarrow> before_loop tiny_GA pop off w)"

section \<open>Properties of the event order\<close>

lemma not_less_popped_before: "\<not> EventItem_less x y \<longleftrightarrow> popped_before x y"
  by (auto simp: EventItem_less_def popped_before_def)

lemma EventItem_less_key:
  "EventItem_less this a \<longleftrightarrow> (ev_time a, ev_priority a) < (ev_time this, ev_priority this)"
  by (auto simp: EventItem_less_def less_prod_def)

lemma popped_before_key:
  "popped_before x y \<longleftrightarrow> (ev_time x, ev_priority x) \<le> (ev_time y, ev_priority y)"
  by (auto simp: popped_before_def less_eq_prod_def)

lemma top_from_max:
  "\<forall>y\<in>set ys. popped_before b y \<Longrightarrow>
   \<forall>y\<in>set ys \<union> set (b # xs). popped_before (top_from b xs) y"
proof (induction xs arbitrary: b ys)
  case Nil
  then show ?case by (simp add: popped_before_key)
next
  case (Cons x xs)
  show ?case
  proof (cases "EventItem_less b x")
    case True
    have "\<forall>y\<in>set (b # ys). popped_before x y"
      using True Cons.prems by (auto simp: EventItem_less_key popped_before_key)
    from Cons.IH [OF this] True show ?thesis by auto
  next
    case False
    have "\<forall>y\<in>set (x # ys). popped_before b y"
      using False Cons.prems by (auto simp: not_less_popped_before)
    from Cons.IH [OF this] False show ?thesis by auto
  qed
qed

lemma top_event_is_top: "top_event es = Some e \<Longrightarrow> is_top es e"
proof (cases es)
  case Nil
  assume "top_event es = Some e" with Nil show ?thesis by (simp add: top_event_def)
next
  case (Cons x xs)
  assume "top_event es = Some e"
  with Cons have e: "e = top_from x xs" by (simp add: top_event_def)
  have "\<forall>y\<in>set [] \<union> set (x # xs). popped_before (top_from x xs) y"
    by (rule top_from_max) simp
  with e Cons top_from_mem [of x xs] show ?thesis
    by (simp add: is_top_def list_all_iff not_less_popped_before)
qed

text \<open>The computed order is one of the orders the comparator allows.\<close>

lemma drain_is_pop_order: "is_pop_order es (drain es)"
proof (induction es rule: drain.induct)
  case (1 es)
  show ?case
  proof (cases "top_event es")
    case None
    then have "es = []" by (cases es) (simp_all add: top_event_def)
    then show ?thesis by (simp add: top_event_def)
  next
    case (Some e)
    with "1.IH" [OF Some] top_event_is_top [OF Some] show ?thesis by simp
  qed
qed

lemma is_pop_order_mset: "is_pop_order es out \<Longrightarrow> mset out = mset es"
proof (induction out arbitrary: es)
  case Nil
  then show ?case by simp
next
  case (Cons e out)
  from Cons.prems have "e \<in> set es" and "is_pop_order (remove1 e es) out"
    by (simp_all add: is_top_def)
  with Cons.IH [of "remove1 e es"] show ?case by simp
qed

text \<open>
  C1, as the code has it. In every order in which the comparator lets the event queue be
  emptied, each event of the queue is popped once, and of any two events the one popped
  first is not later in time; when their times are equal, the one popped first has the
  priority value that is lower or equal: at equal times the event with the lower priority
  value, not the one with the higher value, is popped first.
\<close>

theorem EventItem_pop_order_time_then_lower_priority:
  "is_pop_order es out \<Longrightarrow> sorted_wrt popped_before out \<and> mset out = mset es"
proof (induction out arbitrary: es)
  case Nil
  then show ?case by simp
next
  case (Cons e out)
  from Cons.prems have top: "is_top es e" and rest: "is_pop_order (remove1 e es) out"
    by simp_all
  from Cons.IH [OF rest] have sorted: "sorted_wrt popped_before out"
    and m: "mset out = mset (remove1 e es)" by simp_all
  have "set out \<subseteq> set es"
    using m by (metis set_mset_mset set_remove1_subset)
  with top have "\<forall>y\<in>set out. popped_before e y"
    by (auto simp: is_top_def list_all_iff not_less_popped_before)
  with sorted is_pop_order_mset [OF Cons.prems] show ?case by simp
qed

theorem EventItem_pop_order_witness:
  "is_pop_order
     [\<lparr>ev_id = 0, ev_time = 2000, ev_action = Closure 7, ev_priority = 2, ev_type = JOB_FINISHED\<rparr>,
      \<lparr>ev_id = 1, ev_time = 1000, ev_action = Dispatcher_ref, ev_priority = 1, ev_type = DISPATCH\<rparr>,
      \<lparr>ev_id = 2, ev_time = 2000, ev_action = Closure 3, ev_priority = 0, ev_type = SCENARIO\<rparr>]
     [\<lparr>ev_id = 1, ev_time = 1000, ev_action = Dispatcher_ref, ev_priority = 1, ev_type = DISPATCH\<rparr>,
      \<lparr>ev_id = 2, ev_time = 2000, ev_action = Closure 3, ev_priority = 0, ev_type = SCENARIO\<rparr>,
      \<lparr>ev_id = 0, ev_time = 2000, ev_action = Closure 7, ev_priority = 2, ev_type = JOB_FINISHED\<rparr>]
   \<and> sorted_wrt popped_before
     [\<lparr>ev_id = 1, ev_time = 1000, ev_action = Dispatcher_ref, ev_priority = 1, ev_type = DISPATCH\<rparr>,
      \<lparr>ev_id = 2, ev_time = 2000, ev_action = Closure 3, ev_priority = 0, ev_type = SCENARIO\<rparr>,
      \<lparr>ev_id = 0, ev_time = 2000, ev_action = Closure 7, ev_priority = 2, ev_type = JOB_FINISHED\<rparr>]"
proof -
  have order: "is_pop_order
     [\<lparr>ev_id = 0, ev_time = 2000, ev_action = Closure 7, ev_priority = 2, ev_type = JOB_FINISHED\<rparr>,
      \<lparr>ev_id = 1, ev_time = 1000, ev_action = Dispatcher_ref, ev_priority = 1, ev_type = DISPATCH\<rparr>,
      \<lparr>ev_id = 2, ev_time = 2000, ev_action = Closure 3, ev_priority = 0, ev_type = SCENARIO\<rparr>]
     [\<lparr>ev_id = 1, ev_time = 1000, ev_action = Dispatcher_ref, ev_priority = 1, ev_type = DISPATCH\<rparr>,
      \<lparr>ev_id = 2, ev_time = 2000, ev_action = Closure 3, ev_priority = 0, ev_type = SCENARIO\<rparr>,
      \<lparr>ev_id = 0, ev_time = 2000, ev_action = Closure 7, ev_priority = 2, ev_type = JOB_FINISHED\<rparr>]"
    by (simp add: is_top_def EventItem_less_def)
  from order EventItem_pop_order_time_then_lower_priority [OF order] show ?thesis
    by blast
qed

text \<open>
  C1 as stated fails. Two events with the same time, one with priority 2 and one with
  priority 1: the computed pop order has the event with priority 1 first, and the order that
  pops the event with the higher priority first is not one the comparator allows. Under the
  comparator the event with priority 2 is less than the one with priority 1, in the same way
  as a later event is less than an earlier one: whichever end of the order is popped first,
  the earlier time and the higher priority value do not both come first.
\<close>

theorem EventItem_higher_priority_not_popped_first:
  "drain
     [\<lparr>ev_id = 0, ev_time = 5, ev_action = Closure 0, ev_priority = 2, ev_type = JOB_FINISHED\<rparr>,
      \<lparr>ev_id = 1, ev_time = 5, ev_action = Dispatcher_ref, ev_priority = 1, ev_type = DISPATCH\<rparr>]
   = [\<lparr>ev_id = 1, ev_time = 5, ev_action = Dispatcher_ref, ev_priority = 1, ev_type = DISPATCH\<rparr>,
      \<lparr>ev_id = 0, ev_time = 5, ev_action = Closure 0, ev_priority = 2, ev_type = JOB_FINISHED\<rparr>]
   \<and> \<not> is_pop_order
     [\<lparr>ev_id = 0, ev_time = 5, ev_action = Closure 0, ev_priority = 2, ev_type = JOB_FINISHED\<rparr>,
      \<lparr>ev_id = 1, ev_time = 5, ev_action = Dispatcher_ref, ev_priority = 1, ev_type = DISPATCH\<rparr>]
     [\<lparr>ev_id = 0, ev_time = 5, ev_action = Closure 0, ev_priority = 2, ev_type = JOB_FINISHED\<rparr>,
      \<lparr>ev_id = 1, ev_time = 5, ev_action = Dispatcher_ref, ev_priority = 1, ev_type = DISPATCH\<rparr>]
   \<and> EventItem_less
     \<lparr>ev_id = 0, ev_time = 5, ev_action = Closure 0, ev_priority = 2, ev_type = JOB_FINISHED\<rparr>
     \<lparr>ev_id = 1, ev_time = 5, ev_action = Dispatcher_ref, ev_priority = 1, ev_type = DISPATCH\<rparr>
   \<and> EventItem_less
     \<lparr>ev_id = 2, ev_time = 6, ev_action = Closure 0, ev_priority = 2, ev_type = JOB_FINISHED\<rparr>
     \<lparr>ev_id = 0, ev_time = 5, ev_action = Closure 0, ev_priority = 2, ev_type = JOB_FINISHED\<rparr>"
  by (simp add: top_event_def is_top_def EventItem_less_def)

section \<open>Properties of set\_pending\<close>

lemma set_pending_state: "state (set_pending t j) = PEND"
  by (simp add: set_pending_def Let_def)

lemma set_pending_pend_start_time:
  "pend_start_time (set_pending t j) = (if pend_start_time j = 0 then t else pend_start_time j)"
  by (simp add: set_pending_def Let_def)

lemma fold_set_pending_keeps:
  "pend_start_time j \<noteq> 0 \<Longrightarrow> pend_start_time (fold set_pending ts j) = pend_start_time j"
  by (induction ts arbitrary: j) (simp_all add: set_pending_pend_start_time)

lemma fold_set_pending_state:
  "ts \<noteq> [] \<Longrightarrow> state (fold set_pending ts j) = PEND"
  by (induction ts arbitrary: j rule: rev_induct) (simp_all add: set_pending_state)

text \<open>
  C6, at the input where the code departs from it. A job is constructed (its
  \<^verbatim>\<open>pend_start_time_\<close> is the zero time point) and \<^verbatim>\<open>set_pending\<close> is called at
  the time points 0 and then 1000: the state is PEND, the first call leaves the recorded
  pend start at 0, and the second call, not the first, records its time 1000.
\<close>

theorem set_pending_first_call_at_zero_time_point:
  "(case Job_ctor 0 scenario_1_entry 0 0 of
      (j, g) \<Rightarrow> (state (set_pending 0 j), pend_start_time (set_pending 0 j),
                 pend_start_time (set_pending 1000 (set_pending 0 j))))
   = (PEND, 0, 1000)"
  by (simp add: Job_ctor_def Job_id_gen_post_increment_def set_pending_def)

text \<open>
  C10. For a job whose recorded pend start is still the zero time point (as constructed):
  a call of \<^verbatim>\<open>set_pending\<close> with the zero time point leaves the zero time point in
  place; a call after that with a later time overwrites it; and for a first call at a time
  point \<open>t\<close> not before the epoch, the recorded pend start equals \<open>t\<close> after every
  sequence of further calls exactly when \<open>t\<close> is strictly after the epoch.
\<close>

theorem set_pending_zero_time_point_is_sentinel:
  "pend_start_time j = 0 \<Longrightarrow>
     pend_start_time (set_pending 0 j) = 0
   \<and> (\<forall>t'. 0 < t' \<longrightarrow> pend_start_time (set_pending t' (set_pending 0 j)) = t')
   \<and> (\<forall>t. 0 \<le> t \<longrightarrow>
        ((\<forall>ts. pend_start_time (fold set_pending ts (set_pending t j)) = t) \<longleftrightarrow> 0 < t))"
proof (intro conjI allI impI)
  assume j: "pend_start_time j = 0"
  show "pend_start_time (set_pending 0 j) = 0"
    by (simp add: set_pending_pend_start_time j)
  show "pend_start_time (set_pending t' (set_pending 0 j)) = t'" for t'
    by (simp add: set_pending_pend_start_time j)
  show "(\<forall>ts. pend_start_time (fold set_pending ts (set_pending t j)) = t) \<longleftrightarrow> 0 < t"
    if "0 \<le> t" for t
  proof
    assume all: "\<forall>ts. pend_start_time (fold set_pending ts (set_pending t j)) = t"
    show "0 < t"
    proof (rule ccontr)
      assume "\<not> 0 < t"
      with that have "t = 0" by simp
      with all have "pend_start_time (fold set_pending [1] (set_pending 0 j)) = 0" by blast
      then show False by (simp add: set_pending_pend_start_time j)
    qed
  next
    assume "0 < t"
    then have "pend_start_time (set_pending t j) = t" "pend_start_time (set_pending t j) \<noteq> 0"
      by (simp_all add: set_pending_pend_start_time j)
    then show "\<forall>ts. pend_start_time (fold set_pending ts (set_pending t j)) = t"
      using fold_set_pending_keeps by metis
  qed
qed

theorem set_pending_zero_time_point_is_sentinel_witness:
  "(case Job_ctor 7 scenario_1_entry 0 0 of
      (j, g) \<Rightarrow> (pend_start_time j, pend_start_time (set_pending 0 j),
                 pend_start_time (set_pending 250 (set_pending 0 j)),
                 pend_start_time (fold set_pending [40, 50] (set_pending 30 j))))
   = (0, 0, 250, 30)"
proof -
  obtain j g where j: "Job_ctor 7 scenario_1_entry 0 0 = (j, g)"
    by (cases "Job_ctor 7 scenario_1_entry 0 0")
  then have zero: "pend_start_time j = 0"
    by (auto simp: Job_ctor_def Job_id_gen_post_increment_def)
  note sentinel = set_pending_zero_time_point_is_sentinel [OF zero]
  from sentinel have a: "pend_start_time (set_pending 0 j) = 0"
    and b: "pend_start_time (set_pending 250 (set_pending 0 j)) = 250"
    by simp_all
  from sentinel have "(\<forall>ts. pend_start_time (fold set_pending ts (set_pending 30 j)) = 30) \<longleftrightarrow> (0::int) < 30"
    by simp
  then have "\<forall>ts. pend_start_time (fold set_pending ts (set_pending 30 j)) = 30"
    by simp
  then have c: "pend_start_time (fold set_pending [40, 50] (set_pending 30 j)) = 30"
    by blast
  from j zero a b c show ?thesis by simp
qed

section \<open>Properties of the dispatcher\<close>

text \<open>
  C2. When the cluster version equals the version the dispatcher observed last: if the
  scenario has no entry left and no job is pending, the dispatcher only clears
  \<^verbatim>\<open>next_dispatch_reserved\<close>; otherwise it only pushes one event, for itself, at
  \<^verbatim>\<open>current_time_ + DISPATCH_FREQUENCY\<close> with priority 1 and type DISPATCH. In both cases
  no queue is dispatched: the result does not depend on what \<^verbatim>\<open>Queue::dispatch\<close> and
  \<^verbatim>\<open>Queue::get_num_pending_jobs\<close> do.
\<close>

theorem Dispatcher_unchanged_version:
  "cluster_version s = latest_cluster_version s \<Longrightarrow>
     (scenario_count s = 0 \<and> num_pending_jobs s = 0 \<longrightarrow>
        Dispatcher dispatch get_num_pending_jobs s = s\<lparr>next_dispatch_reserved := False\<rparr>)
   \<and> (\<not> (scenario_count s = 0 \<and> num_pending_jobs s = 0) \<longrightarrow>
        Dispatcher dispatch get_num_pending_jobs s =
          s\<lparr>EventItem_id_gen := EventItem_id_gen s + 1,
            events := events s @
              [\<lparr>ev_id = EventItem_id_gen s, ev_time = current_time s + DISPATCH_FREQUENCY,
                ev_action = Dispatcher_ref, ev_priority = 1, ev_type = DISPATCH\<rparr>]\<rparr>)
   \<and> Dispatcher dispatch get_num_pending_jobs s = Dispatcher dispatch' get_num_pending_jobs' s"
  by (simp add: Dispatcher_def after_delay_def EventItem_ctor_def Let_def)

theorem Dispatcher_unchanged_version_witness:
  "Dispatcher (\<lambda>q s. (True, s)) (\<lambda>q. 1) idle_engine = idle_engine\<lparr>next_dispatch_reserved := False\<rparr>
   \<and> Dispatcher (\<lambda>q s. (True, s)) (\<lambda>q. 1) (idle_engine\<lparr>current_time := 3000, num_pending_jobs := 2\<rparr>) =
       idle_engine\<lparr>current_time := 3000, num_pending_jobs := 2, EventItem_id_gen := 1,
         events := [\<lparr>ev_id = 0, ev_time = 4000, ev_action = Dispatcher_ref, ev_priority = 1,
                     ev_type = DISPATCH\<rparr>]\<rparr>"
proof -
  have v1: "cluster_version idle_engine = latest_cluster_version idle_engine"
    by (simp add: idle_engine_def)
  have v2: "cluster_version (idle_engine\<lparr>current_time := 3000, num_pending_jobs := 2\<rparr>) =
            latest_cluster_version (idle_engine\<lparr>current_time := 3000, num_pending_jobs := 2\<rparr>)"
    by (simp add: idle_engine_def)
  from Dispatcher_unchanged_version [OF v1, of "\<lambda>q s. (True, s)" "\<lambda>q. 1"]
       Dispatcher_unchanged_version [OF v2, of "\<lambda>q s. (True, s)" "\<lambda>q. 1"]
  show ?thesis
    by (simp add: idle_engine_def DISPATCH_FREQUENCY_def)
qed

section \<open>Properties of the id counters\<close>






















section \<open>Lemmas about the driver\<close>

subsection \<open>std::max\_element and the remainder\<close>

lemma max_element_loop_inv:
  "length pre = i \<Longrightarrow> j < i \<Longrightarrow> y = (pre @ rest) ! j \<Longrightarrow> \<forall>x\<in>set pre. f x \<le> f y \<Longrightarrow>
   (case max_element_loop (\<lambda>a b. f a < f b) (j, y) i rest of
      (j', y') \<Rightarrow> j' < length (pre @ rest) \<and> y' = (pre @ rest) ! j' \<and>
                  (\<forall>x\<in>set (pre @ rest). f x \<le> (f y' :: 'b :: linorder)))"
proof (induction rest arbitrary: pre i j y)
  case Nil
  then show ?case by simp
next
  case (Cons x xs)
  have len: "length (pre @ [x]) = Suc i" using Cons.prems(1) by simp
  show ?case
  proof (cases "f y < f x")
    case True
    have "case max_element_loop (\<lambda>a b. f a < f b) (i, x) (Suc i) xs of
      (j', y') \<Rightarrow> j' < length ((pre @ [x]) @ xs) \<and> y' = ((pre @ [x]) @ xs) ! j' \<and>
                  (\<forall>z\<in>set ((pre @ [x]) @ xs). f z \<le> f y')"
    proof (rule Cons.IH [OF len])
      show "i < Suc i" by simp
      show "x = ((pre @ [x]) @ xs) ! i" using Cons.prems(1) by (simp add: nth_append)
      show "\<forall>z\<in>set (pre @ [x]). f z \<le> f x" using True Cons.prems(4) by auto
    qed
    with True show ?thesis by simp
  next
    case False
    have "case max_element_loop (\<lambda>a b. f a < f b) (j, y) (Suc i) xs of
      (j', y') \<Rightarrow> j' < length ((pre @ [x]) @ xs) \<and> y' = ((pre @ [x]) @ xs) ! j' \<and>
                  (\<forall>z\<in>set ((pre @ [x]) @ xs). f z \<le> f y')"
    proof (rule Cons.IH [OF len])
      show "j < Suc i" using Cons.prems(2) by simp
      show "y = ((pre @ [x]) @ xs) ! j" using Cons.prems(3) by simp
      show "\<forall>z\<in>set (pre @ [x]). f z \<le> f y" using False Cons.prems(4) by auto
    qed
    with False show ?thesis by simp
  qed
qed

lemma max_element_Some:
  fixes f :: "'a \<Rightarrow> 'b :: linorder"
  assumes "xs \<noteq> []"
  shows "\<exists>i. max_element (\<lambda>a b. f a < f b) xs = Some i \<and> i < length xs \<and>
             (\<forall>x\<in>set xs. f x \<le> f (xs ! i))"
proof -
  from assms obtain x rest where xs: "xs = x # rest" by (cases xs) auto
  have "case max_element_loop (\<lambda>a b. f a < f b) (0, x) 1 rest of
      (j', y') \<Rightarrow> j' < length ([x] @ rest) \<and> y' = ([x] @ rest) ! j' \<and>
                  (\<forall>z\<in>set ([x] @ rest). f z \<le> f y')"
    by (rule max_element_loop_inv) simp_all
  then show ?thesis
    by (auto simp: max_element_def xs split: prod.splits)
qed

lemma max_element_None: "max_element cmp xs = None \<longleftrightarrow> xs = []"
  by (simp add: max_element_def split: list.splits)

lemma Max_at_index:
  fixes f :: "'a \<Rightarrow> 'b :: linorder"
  assumes "i < length xs" and "\<forall>x\<in>set xs. f x \<le> f (xs ! i)"
  shows "Max (set (map f xs)) = f (xs ! i)"
proof (rule Max_eqI)
  show "finite (set (map f xs))" by simp
  show "y \<le> f (xs ! i)" if "y \<in> set (map f xs)" for y using that assms(2) by auto
  show "f (xs ! i) \<in> set (map f xs)" using assms(1) by simp
qed

lemma c_rem_zero_iff: "0 \<le> a \<Longrightarrow> b \<noteq> 0 \<Longrightarrow> c_rem a b = 0 \<longleftrightarrow> b dvd a"
  by (auto simp: c_rem_def sgn_if mod_eq_0_iff_dvd abs_if)

subsection \<open>Survivor selection and the loop body\<close>

lemma fitness_increase_age: "fitness ev (increase_age c) = fitness ev c"
  by (simp add: fitness_def increase_age_def split: option.splits)

lemma max_fitness_increase_age: "max_fitness ev (map increase_age cs) = max_fitness ev cs"
  by (simp add: max_fitness_def fitness_increase_age comp_def)

lemma population_breed: "population (breed ga st) = population st"
  by (simp add: breed_def Let_def split: prod.splits)

lemma breed_console:
  "offspring (breed ga (st\<lparr>console := c\<rparr>)) = offspring (breed ga st)"
  "mutants (breed ga (st\<lparr>console := c\<rparr>)) = mutants (breed ga st)"
  "rnd (breed ga (st\<lparr>console := c\<rparr>)) = rnd (breed ga st)"
  "console (breed ga (st\<lparr>console := c\<rparr>)) = c"
  "files (breed ga st) = files st"
  "output_buffer (breed ga st) = output_buffer st"
  "current_best (breed ga st) = current_best st"
  by (simp_all add: breed_def Let_def split: prod.splits)

lemma length_select_survivors:
  "length (select_survivors ev n p off m) = min n (length p + length off + length m)"
  by (simp add: select_survivors_def min.commute)

lemma sorted_key_hd:
  fixes k :: "'a \<Rightarrow> 'b :: linorder"
  assumes "xs \<noteq> []"
  shows "hd (sort_key k xs) \<in> set xs \<and> (\<forall>x\<in>set xs. k (hd (sort_key k xs)) \<le> k x)"
proof -
  let ?ys = "sort_key k xs"
  from assms have "?ys \<noteq> []" by (metis length_0_conv length_sort)
  then obtain y ys where ys: "?ys = y # ys" by (cases ?ys) auto
  have "sorted (map k ?ys)" by (rule sorted_sort_key)
  with ys have "\<forall>x\<in>set ys. k y \<le> k x" by simp
  moreover have "set ?ys = set xs" by simp
  ultimately show ?thesis using ys by (metis list.sel(1) list.set_intros(1) order_refl set_ConsD)
qed

lemma max_fitness_select_survivors:
  assumes "0 < n" and "p @ off @ m \<noteq> []"
  shows "max_fitness ev (select_survivors ev n p off m) = max_fitness ev (p @ off @ m)"
proof -
  let ?k = "\<lambda>c. (- fitness ev c, age c)"
  let ?pool = "p @ off @ m"
  let ?ys = "sort_key ?k ?pool"
  let ?S = "take n ?ys"
  from sorted_key_hd [OF assms(2), of ?k]
  have hd_in: "hd ?ys \<in> set ?pool" and hd_le: "\<forall>x\<in>set ?pool. ?k (hd ?ys) \<le> ?k x" by blast+
  have best: "\<forall>x\<in>set ?pool. fitness ev x \<le> fitness ev (hd ?ys)"
  proof
    fix x assume "x \<in> set ?pool"
    with hd_le have "?k (hd ?ys) \<le> ?k x" by blast
    then show "fitness ev x \<le> fitness ev (hd ?ys)"
      by (auto simp: less_eq_prod_def)
  qed
  have ne: "?ys \<noteq> []" using assms(2) by (metis length_0_conv length_sort)
  with assms(1) have hdS: "hd ?ys \<in> set ?S" by (cases ?ys; cases n) auto
  have sub: "set ?S \<subseteq> set ?pool" using set_take_subset [of n ?ys] by simp
  have "Max (set (map (fitness ev) ?S)) = fitness ev (hd ?ys)"
  proof (rule Max_eqI)
    show "finite (set (map (fitness ev) ?S))" by simp
    show "y \<le> fitness ev (hd ?ys)" if "y \<in> set (map (fitness ev) ?S)" for y
      using that best sub by auto
    show "fitness ev (hd ?ys) \<in> set (map (fitness ev) ?S)" using hdS by simp
  qed
  moreover have "Max (set (map (fitness ev) ?pool)) = fitness ev (hd ?ys)"
  proof (rule Max_eqI)
    show "finite (set (map (fitness ev) ?pool))" by simp
    show "y \<le> fitness ev (hd ?ys)" if "y \<in> set (map (fitness ev) ?pool)" for y
      using that best by auto
    from hd_in have "fitness ev (hd ?ys) \<in> fitness ev ` set ?pool" by (rule imageI)
    then show "fitness ev (hd ?ys) \<in> set (map (fitness ev) ?pool)" by (simp only: set_map)
  qed
  ultimately show ?thesis by (simp add: max_fitness_def select_survivors_def)
qed


lemma iteration_result:
  assumes N: "0 < NUM_POPULATION_TO_KEEP ga"
    and len: "length (population st) = NUM_POPULATION_TO_KEEP ga"
    and si: "SAVE_INTERVAL ga \<noteq> 0"
    and it: "0 \<le> iter"
  shows "\<exists>st' best. iteration ga iter st = Inr st'
     \<and> best < NUM_POPULATION_TO_KEEP ga \<and> current_best st' = Some best
     \<and> population st' = map increase_age (generation_survivors ga st)
     \<and> length (generation_survivors ga st) = NUM_POPULATION_TO_KEEP ga
     \<and> mutants st' = []
     \<and> offspring st' = offspring (breed ga st) \<and> rnd st' = rnd (breed ga st)
     \<and> output_buffer st' =
         output_buffer st @ [(iter, max_fitness (evaluate ga) (generation_survivors ga st))]
     \<and> files st' = files st @
         (if SAVE_INTERVAL ga dvd iter
          then [Save_population ''last_population.bin'' (map increase_age (generation_survivors ga st))]
          else [])"
proof -
  let ?ev = "evaluate ga"
  let ?S = "generation_survivors ga st"
  let ?st0 = "st\<lparr>console := console st @ [Epoch (iter + 1)]\<rparr>"
  have S_eq: "select_survivors ?ev (NUM_POPULATION_TO_KEEP ga)
                (population (breed ga ?st0)) (offspring (breed ga ?st0)) (mutants (breed ga ?st0)) = ?S"
    by (simp add: generation_survivors_def population_breed breed_console)
  have lenS: "length ?S = NUM_POPULATION_TO_KEEP ga"
    by (simp add: generation_survivors_def length_select_survivors len)
  with N have "?S \<noteq> []" by auto
  from max_element_Some [OF this, of "fitness ?ev"]
  obtain best where m: "max_element (\<lambda>a b. fitness ?ev a < fitness ?ev b) ?S = Some best"
    and b: "best < length ?S" and top: "\<forall>x\<in>set ?S. fitness ?ev x \<le> fitness ?ev (?S ! best)"
    by blast
  have mx: "fitness ?ev (?S ! best) = max_fitness ?ev ?S"
    using Max_at_index [OF b top] by (simp add: max_fitness_def)
  have rem: "c_rem iter (SAVE_INTERVAL ga) = 0 \<longleftrightarrow> SAVE_INTERVAL ga dvd iter"
    by (rule c_rem_zero_iff [OF it si])
  show ?thesis
    using m b mx rem si lenS
    by (simp add: iteration_def Let_def population_breed breed_console
        generation_survivors_def [symmetric])
qed



text \<open>
  The survivors are taken from the merged pools, there are \<open>n\<close> of them when the pools
  have that many members, and no member that is left out has a higher fitness than a
  survivor, or the same fitness and a lower age.
\<close>

lemma select_survivors_top:
  fixes ev n p off m
  defines "S \<equiv> select_survivors ev n p off m"
  shows "mset S \<subseteq># mset (p @ off @ m)"
    and "length S = min n (length (p @ off @ m))"
    and "\<forall>s\<in>set S. \<forall>c\<in>#(mset (p @ off @ m) - mset S).
           fitness ev c < fitness ev s \<or> (fitness ev c = fitness ev s \<and> age s \<le> age c)"
proof -
  let ?k = "\<lambda>c. (- fitness ev c, age c)"
  let ?pool = "p @ off @ m"
  let ?ys = "sort_key ?k ?pool"
  have S: "S = take n ?ys" by (simp add: S_def select_survivors_def)
  have ms: "mset ?pool = mset (take n ?ys) + mset (drop n ?ys)"
    by (metis append_take_drop_id mset_append mset_sort)
  then show "mset S \<subseteq># mset (p @ off @ m)" unfolding S by simp
  show "length S = min n (length (p @ off @ m))" unfolding S by (simp add: min.commute)
  have "sorted (map ?k (take n ?ys @ drop n ?ys))"
    using sorted_sort_key [of ?k ?pool] by simp
  then have le: "\<forall>s\<in>set (take n ?ys). \<forall>c\<in>set (drop n ?ys). ?k s \<le> ?k c"
    by (auto simp: sorted_append simp del: append_take_drop_id)
  from ms have rest: "mset ?pool - mset S = mset (drop n ?ys)" unfolding S by simp
  show "\<forall>s\<in>set S. \<forall>c\<in>#(mset (p @ off @ m) - mset S).
           fitness ev c < fitness ev s \<or> (fitness ev c = fitness ev s \<and> age s \<le> age c)"
  proof (intro ballI)
    fix s c assume "s \<in> set S" and "c \<in># mset (p @ off @ m) - mset S"
    with rest S le have "?k s \<le> ?k c" by auto
    then show "fitness ev c < fitness ev s \<or> (fitness ev c = fitness ev s \<and> age s \<le> age c)"
      by (auto simp: less_eq_prod_def)
  qed
qed

subsection \<open>The loop\<close>

lemma after_generations_inv:
  assumes N: "0 < NUM_POPULATION_TO_KEEP ga"
    and len: "length (population st) = NUM_POPULATION_TO_KEEP ga"
    and si: "SAVE_INTERVAL ga \<noteq> 0"
  shows "\<exists>st'. after_generations ga k st = Inr st'
     \<and> length (population st') = NUM_POPULATION_TO_KEEP ga
     \<and> (k = 0 \<longrightarrow> st' = st)
     \<and> (0 < k \<longrightarrow> (\<exists>best. current_best st' = Some best \<and> best < length (population st')))"
proof (induction k)
  case 0
  then show ?case by (simp add: len)
next
  case (Suc k)
  then obtain s0 where s0: "after_generations ga k st = Inr s0"
    and l0: "length (population s0) = NUM_POPULATION_TO_KEEP ga" by blast
  from iteration_result [OF N l0 si, of "int k"]
  obtain s1 best where "iteration ga (int k) s0 = Inr s1"
    "best < NUM_POPULATION_TO_KEEP ga" "current_best s1 = Some best"
    "population s1 = map increase_age (generation_survivors ga s0)"
    "length (generation_survivors ga s0) = NUM_POPULATION_TO_KEEP ga"
    by auto
  with s0 show ?case by simp
qed

lemma ga_loop_unroll:
  "int k \<le> NUM_ITERATIONS ga \<Longrightarrow>
   ga_loop ga 0 st =
     (case after_generations ga k st of Inl u \<Rightarrow> Inl u | Inr st' \<Rightarrow> ga_loop ga (int k) st')"
proof (induction k)
  case 0
  then show ?case by simp
next
  case (Suc k)
  then have lt: "int k < NUM_ITERATIONS ga" by simp
  with Suc.IH have "ga_loop ga 0 st =
     (case after_generations ga k st of Inl u \<Rightarrow> Inl u | Inr st' \<Rightarrow> ga_loop ga (int k) st')"
    by simp
  also have "\<dots> = (case after_generations ga (Suc k) st of Inl u \<Rightarrow> Inl u
                    | Inr st' \<Rightarrow> ga_loop ga (int (Suc k)) st')"
    using lt by (auto simp: ga_loop.simps [of ga "int k"] add.commute split: sum.splits)
  finally show ?case .
qed

text \<open>The loop of \<^verbatim>\<open>main\<close> makes \<^verbatim>\<open>NUM_ITERATIONS\<close> passes through its body.\<close>

lemma ga_loop_after_generations:
  "ga_loop ga 0 st = after_generations ga (nat (NUM_ITERATIONS ga)) st"
proof (cases "0 \<le> NUM_ITERATIONS ga")
  case True
  then have "int (nat (NUM_ITERATIONS ga)) \<le> NUM_ITERATIONS ga" by simp
  from ga_loop_unroll [OF this] True show ?thesis
    by (auto simp: ga_loop.simps [of ga "NUM_ITERATIONS ga"] split: sum.splits)
next
  case False
  then show ?thesis by (simp add: ga_loop.simps [of ga 0])
qed

section \<open>Properties of the driver\<close>

text \<open>The definitions that evaluate the driver on a concrete configuration.\<close>

lemmas ga_eval = main_def tiny_GA_def tiny_start_def evolve_def before_loop_def Let_def
  calculate_fitness_parallel_def fitness_def select_survivors_def iteration_def breed_def
  max_element_def increase_age_def c_rem_def exit_code_def generations_run_def
  max_fitness_def generation_survivors_def

lemma max_fitness_pool:
  assumes "p \<noteq> []"
  shows "max_fitness ev p \<le> max_fitness ev (p @ off @ m)"
  unfolding max_fitness_def
  by (rule Max_mono) (use assms in auto)

lemma length_before_loop:
  "length pop = NUM_POPULATION_TO_KEEP ga \<Longrightarrow>
   length (population (before_loop ga pop off w)) = NUM_POPULATION_TO_KEEP ga"
  by (simp add: before_loop_def Let_def length_select_survivors)

text \<open>
  C3. With a population of \<^verbatim>\<open>NUM_POPULATION_TO_KEEP\<close> members, at least one, and
  \<^verbatim>\<open>SAVE_INTERVAL\<close> not zero: generation \<open>k + 1\<close> is reached from generation \<open>k\<close>,
  its population is what \<^verbatim>\<open>select_survivors\<close> keeps of the population of generation
  \<open>k\<close> merged with that generation's offspring and mutants (each member one generation
  older), it has \<^verbatim>\<open>NUM_POPULATION_TO_KEEP\<close> members again, and its maximum fitness is
  greater than or equal to the maximum fitness of the population of generation \<open>k\<close>.
\<close>

theorem max_fitness_never_decreases:
  assumes N: "0 < NUM_POPULATION_TO_KEEP ga"
    and len: "length (population st) = NUM_POPULATION_TO_KEEP ga"
    and si: "SAVE_INTERVAL ga \<noteq> 0"
  shows "\<exists>s0 s1. after_generations ga k st = Inr s0 \<and> after_generations ga (Suc k) st = Inr s1
     \<and> population s1 =
         map increase_age
           (select_survivors (evaluate ga) (NUM_POPULATION_TO_KEEP ga)
              (population s0) (offspring (breed ga s0)) (mutants (breed ga s0)))
     \<and> length (population s1) = NUM_POPULATION_TO_KEEP ga
     \<and> max_fitness (evaluate ga) (population s0) \<le> max_fitness (evaluate ga) (population s1)"
proof -
  let ?ev = "evaluate ga"
  from after_generations_inv [OF N len si, of k]
  obtain s0 where s0: "after_generations ga k st = Inr s0"
    and l0: "length (population s0) = NUM_POPULATION_TO_KEEP ga" by blast
  from iteration_result [OF N l0 si, of "int k"]
  obtain s1 where s1: "iteration ga (int k) s0 = Inr s1"
    and p1: "population s1 = map increase_age (generation_survivors ga s0)"
    and lS: "length (generation_survivors ga s0) = NUM_POPULATION_TO_KEEP ga"
    by auto
  from N l0 have ne: "population s0 \<noteq> []" by auto
  then have pool: "population s0 @ offspring (breed ga s0) @ mutants (breed ga s0) \<noteq> []"
    by simp
  have "max_fitness ?ev (population s1) = max_fitness ?ev (generation_survivors ga s0)"
    by (simp add: p1 max_fitness_increase_age)
  also have "\<dots> = max_fitness ?ev
      (population s0 @ offspring (breed ga s0) @ mutants (breed ga s0))"
    unfolding generation_survivors_def by (rule max_fitness_select_survivors [OF N pool])
  finally have "max_fitness ?ev (population s0) \<le> max_fitness ?ev (population s1)"
    using max_fitness_pool [OF ne, of ?ev] by simp
  with s0 s1 p1 lS show ?thesis
    by (simp add: generation_survivors_def)
qed

theorem max_fitness_never_decreases_witness:
  "(\<exists>s0 s1. after_generations tiny_GA 1 tiny_start = Inr s0
      \<and> after_generations tiny_GA 2 tiny_start = Inr s1
      \<and> max_fitness (evaluate tiny_GA) (population s0) \<le> max_fitness (evaluate tiny_GA) (population s1))
   \<and> map_sum id (\<lambda>s. max_fitness (evaluate tiny_GA) (population s))
        (after_generations tiny_GA 1 tiny_start) = Inr 18
   \<and> map_sum id (\<lambda>s. max_fitness (evaluate tiny_GA) (population s))
        (after_generations tiny_GA 2 tiny_start) = Inr 24"
proof -
  have h1: "0 < NUM_POPULATION_TO_KEEP tiny_GA" by (simp add: tiny_GA_def)
  have h2: "length (population tiny_start) = NUM_POPULATION_TO_KEEP tiny_GA"
    by (simp add: ga_eval)
  have h3: "SAVE_INTERVAL tiny_GA \<noteq> 0" by (simp add: tiny_GA_def)
  from max_fitness_never_decreases [OF h1 h2 h3, of 1]
  have "\<exists>s0 s1. after_generations tiny_GA 1 tiny_start = Inr s0
      \<and> after_generations tiny_GA 2 tiny_start = Inr s1
      \<and> max_fitness (evaluate tiny_GA) (population s0) \<le> max_fitness (evaluate tiny_GA) (population s1)"
    by (auto simp: numeral_2_eq_2)
  moreover have "map_sum id (\<lambda>s. max_fitness (evaluate tiny_GA) (population s))
        (after_generations tiny_GA 1 tiny_start) = Inr 18"
    by (simp add: ga_eval)
  moreover have "map_sum id (\<lambda>s. max_fitness (evaluate tiny_GA) (population s))
        (after_generations tiny_GA 2 tiny_start) = Inr 24"
    by (simp add: ga_eval numeral_2_eq_2)
  ultimately show ?thesis by blast
qed

text \<open>
  C7. With a population of \<^verbatim>\<open>NUM_POPULATION_TO_KEEP\<close> members, at least one,
  \<^verbatim>\<open>SAVE_INTERVAL\<close> not zero and an iteration index that is not negative, a pass through
  the loop body ends with the mutants cleared, with the population that survivor selection
  kept, each member's age incremented by exactly one, and with the pair of the iteration
  index and the best fitness among the survivors appended to the epoch record; it saves the
  population when the iteration index is a multiple of \<^verbatim>\<open>SAVE_INTERVAL\<close> and writes no
  file otherwise.
\<close>

theorem generation_bookkeeping:
  assumes N: "0 < NUM_POPULATION_TO_KEEP ga"
    and len: "length (population st) = NUM_POPULATION_TO_KEEP ga"
    and si: "SAVE_INTERVAL ga \<noteq> 0"
    and it: "0 \<le> iter"
  shows "\<exists>st'. iteration ga iter st = Inr st'
     \<and> mutants st' = []
     \<and> population st' = map (\<lambda>c. c\<lparr>age := age c + 1\<rparr>) (generation_survivors ga st)
     \<and> length (population st') = NUM_POPULATION_TO_KEEP ga
     \<and> output_buffer st' =
         output_buffer st @ [(iter, max_fitness (evaluate ga) (generation_survivors ga st))]
     \<and> files st' = files st @
         (if SAVE_INTERVAL ga dvd iter
          then [Save_population ''last_population.bin'' (population st')] else [])"
proof -
  from iteration_result [OF N len si it]
  obtain st' where "iteration ga iter st = Inr st'"
    "population st' = map increase_age (generation_survivors ga st)"
    "length (generation_survivors ga st) = NUM_POPULATION_TO_KEEP ga"
    "mutants st' = []"
    "output_buffer st' =
       output_buffer st @ [(iter, max_fitness (evaluate ga) (generation_survivors ga st))]"
    "files st' = files st @
       (if SAVE_INTERVAL ga dvd iter
        then [Save_population ''last_population.bin'' (map increase_age (generation_survivors ga st))]
        else [])"
    by blast
  moreover have "increase_age = (\<lambda>c. c\<lparr>age := age c + 1\<rparr>)"
    by (rule ext) (simp add: increase_age_def)
  ultimately show ?thesis by simp
qed

theorem generation_bookkeeping_witness:
  "(\<exists>st'. iteration tiny_GA 0 tiny_start = Inr st' \<and> mutants st' = []
      \<and> map age (population st') = [1, 1, 1, 1]
      \<and> map age (generation_survivors tiny_GA tiny_start) = [0, 0, 0, 0]
      \<and> output_buffer st' = [(0, 18)]
      \<and> files st' = files tiny_start @ [Save_population ''last_population.bin'' (population st')])
   \<and> (\<exists>st'. iteration tiny_GA 1 tiny_start = Inr st' \<and> mutants st' = []
      \<and> output_buffer st' = [(1, 18)]
      \<and> files st' = files tiny_start)"
proof -
  have h1: "0 < NUM_POPULATION_TO_KEEP tiny_GA" by (simp add: tiny_GA_def)
  have h2: "length (population tiny_start) = NUM_POPULATION_TO_KEEP tiny_GA"
    by (simp add: ga_eval)
  have h3: "SAVE_INTERVAL tiny_GA \<noteq> 0" by (simp add: tiny_GA_def)
  have s: "map age (generation_survivors tiny_GA tiny_start) = [0, 0, 0, 0]"
    "max_fitness (evaluate tiny_GA) (generation_survivors tiny_GA tiny_start) = 18"
    "output_buffer tiny_start = []" "SAVE_INTERVAL tiny_GA = 2"
    by (simp_all add: ga_eval)
  from generation_bookkeeping [OF h1 h2 h3, of 0] s
  have a: "\<exists>st'. iteration tiny_GA 0 tiny_start = Inr st' \<and> mutants st' = []
      \<and> map age (population st') = [1, 1, 1, 1]
      \<and> map age (generation_survivors tiny_GA tiny_start) = [0, 0, 0, 0]
      \<and> output_buffer st' = [(0, 18)]
      \<and> files st' = files tiny_start @ [Save_population ''last_population.bin'' (population st')]"
    by (auto simp: comp_def)
  from generation_bookkeeping [OF h1 h2 h3, of 1] s
  have b: "\<exists>st'. iteration tiny_GA 1 tiny_start = Inr st' \<and> mutants st' = []
      \<and> output_buffer st' = [(1, 18)]
      \<and> files st' = files tiny_start"
    by auto
  from a b show ?thesis by blast
qed

text \<open>
  C9. \<^verbatim>\<open>current_best\<close> is unassigned when the loop starts and the loop body assigns it
  the position of a population member. With a population of \<^verbatim>\<open>NUM_POPULATION_TO_KEEP\<close>
  members, at least one, and \<^verbatim>\<open>SAVE_INTERVAL\<close> not zero, the save of the best
  chromosome after the loop reads an assigned pointer, which then points at a member of the
  final population, if and only if \<^verbatim>\<open>NUM_ITERATIONS\<close> is at least 1; with no iteration
  the loop leaves the state as it was and the driver reads the uninitialised pointer.
\<close>

theorem final_save_defined_iff_iterated:
  assumes N: "0 < NUM_POPULATION_TO_KEEP ga"
    and si: "SAVE_INTERVAL ga \<noteq> 0"
    and len: "length pop = NUM_POPULATION_TO_KEEP ga"
  shows "(evolve ga pop off w \<noteq> Undefined_behaviour Uninitialised_pointer \<longleftrightarrow> 1 \<le> NUM_ITERATIONS ga)
     \<and> (NUM_ITERATIONS ga \<le> 0 \<longrightarrow>
          ga_loop ga 0 (before_loop ga pop off w) = Inr (before_loop ga pop off w)
          \<and> current_best (before_loop ga pop off w) = None)
     \<and> (1 \<le> NUM_ITERATIONS ga \<longrightarrow>
          (\<exists>st' best. ga_loop ga 0 (before_loop ga pop off w) = Inr st'
             \<and> current_best st' = Some best \<and> best < length (population st')
             \<and> evolve ga pop off w =
                 Exited 0 (console st')
                   (files st' @
                    [Save_chromosome ''best_chromosome.bin'' (population st' ! best),
                     Save_population ''last_population.bin'' (population st'),
                     Save_epochs_record ''records.csv'' (output_buffer st'),
                     Save_summary_text ''summary.txt'',
                     Append_elapsed_times ''summary.txt''])))"
proof -
  let ?st = "before_loop ga pop off w"
  let ?k = "nat (NUM_ITERATIONS ga)"
  have l: "length (population ?st) = NUM_POPULATION_TO_KEEP ga"
    by (rule length_before_loop [OF len])
  have none: "current_best ?st = None" by (simp add: before_loop_def Let_def)
  from after_generations_inv [OF N l si, of ?k]
  obtain st' where run: "ga_loop ga 0 ?st = Inr st'"
    and zero: "?k = 0 \<longrightarrow> st' = ?st"
    and pos: "0 < ?k \<longrightarrow> (\<exists>best. current_best st' = Some best \<and> best < length (population st'))"
    by (auto simp: ga_loop_after_generations)
  show ?thesis
  proof (cases "1 \<le> NUM_ITERATIONS ga")
    case True
    then have "0 < ?k" by simp
    with pos obtain best where "current_best st' = Some best" "best < length (population st')"
      by blast
    with run True show ?thesis by (simp add: evolve_def)
  next
    case False
    then have "?k = 0" by simp
    with zero have "st' = ?st" by simp
    with run none False show ?thesis by (simp add: evolve_def)
  qed
qed

theorem final_save_defined_iff_iterated_witness:
  "evolve tiny_GA (replicate 4 (default_chromosome tiny_GA)) [] () \<noteq>
     Undefined_behaviour Uninitialised_pointer
   \<and> evolve (tiny_GA\<lparr>NUM_ITERATIONS := 0\<rparr>) (replicate 4 (default_chromosome tiny_GA)) [] () =
     Undefined_behaviour Uninitialised_pointer"
proof -
  let ?pop = "replicate 4 (default_chromosome tiny_GA)"
  have a: "0 < NUM_POPULATION_TO_KEEP tiny_GA" "SAVE_INTERVAL tiny_GA \<noteq> 0"
    "length ?pop = NUM_POPULATION_TO_KEEP tiny_GA" "1 \<le> NUM_ITERATIONS tiny_GA"
    by (simp_all add: tiny_GA_def)
  have b: "0 < NUM_POPULATION_TO_KEEP (tiny_GA\<lparr>NUM_ITERATIONS := 0\<rparr>)"
    "SAVE_INTERVAL (tiny_GA\<lparr>NUM_ITERATIONS := 0\<rparr>) \<noteq> 0"
    "length ?pop = NUM_POPULATION_TO_KEEP (tiny_GA\<lparr>NUM_ITERATIONS := 0\<rparr>)"
    "\<not> 1 \<le> NUM_ITERATIONS (tiny_GA\<lparr>NUM_ITERATIONS := 0\<rparr>)"
    by (simp_all add: tiny_GA_def)
  from final_save_defined_iff_iterated [OF a(1-3), of "[]" "()"] a(4)
  have "evolve tiny_GA ?pop [] () \<noteq> Undefined_behaviour Uninitialised_pointer" by blast
  moreover
  from final_save_defined_iff_iterated [OF b(1-3), of "[]" "()"] b(4)
  have "evolve (tiny_GA\<lparr>NUM_ITERATIONS := 0\<rparr>) ?pop [] () = Undefined_behaviour Uninitialised_pointer"
    by blast
  ultimately show ?thesis by blast
qed

text \<open>
  The only check that \<^verbatim>\<open>main\<close> makes of a loaded population is of its size: when a
  population file is given and the population loaded from it does not have
  \<^verbatim>\<open>NUM_POPULATION_TO_KEEP\<close> members, the driver prints ``Incompatible population.''
  and exits with code 0 without running any generation. What \<^verbatim>\<open>load_population\<close>
  returns for a file is not fixed by the sources.
\<close>

lemma main_population_size_check:
  "population_file_path \<noteq> [] \<Longrightarrow>
   length (load_population ga population_file_path) \<noteq> NUM_POPULATION_TO_KEEP ga \<Longrightarrow>
     main ga (Parsed population_file_path) w = Exited 0 [Text ''Incompatible population.''] []
   \<and> exit_code (main ga (Parsed population_file_path) w) = Some 0
   \<and> generations_run (main ga (Parsed population_file_path) w) = 0"
  by (auto simp: main_def Let_def exit_code_def generations_run_def)

lemma main_population_size_check_example:
  "main (tiny_GA\<lparr>NUM_POPULATION_TO_KEEP := 3\<rparr>) (Parsed ''population.bin'') () =
     Exited 0 [Text ''Incompatible population.''] []
   \<and> generations_run (main tiny_GA (Parsed ''population.bin'') ()) = 2"
  by (simp add: ga_eval ga_loop.simps)

text \<open>
  C5, as the code has it. For every invocation whose arguments fail to parse, the driver
  prints the message of the error and the help text and exits with the exit code 0.
\<close>

theorem parse_failure_exits_with_code_zero:
  "main ga (Runtime_error what) w = Exited 0 [Text what, Help] []
   \<and> exit_code (main ga (Runtime_error what) w) = Some 0"
  by (simp add: main_def exit_code_def)

text \<open>
  C5 as stated fails: on an argument that does not parse, the exit code is 0.
\<close>

theorem parse_failure_exit_code_example:
  "exit_code (main tiny_GA (Runtime_error ''Unknown argument: --populaton'') ()) = Some 0"
  by (simp add: main_def exit_code_def)

end
